theory Spec2Isabelle
  imports Complex_Main "HOL-Library.Mapping"
begin

section \<open>Agent orchestrator: data model\<close>

text \<open>
  The development embeds the agent orchestrator service (the file whose first line is
  \<^verbatim>\<open>// agent/orchestrator-service/main.go\<close>). Go strings are byte sequences and are
  modelled as \<^typ>\<open>string\<close>; \<^verbatim>\<open>float64\<close> values are modelled as \<^typ>\<open>real\<close> (the code only
  stores, compares and prints them); \<^verbatim>\<open>int\<close> values are modelled as \<^typ>\<open>int\<close>. The
  fields of the structs keep their names behind a prefix that tells the struct
  (\<open>req_Query\<close> is \<^verbatim>\<open>AgentRequest.Query\<close>, \<open>resp_Query\<close> is \<^verbatim>\<open>AgentResponse.Query\<close>). Calls
  of \<^verbatim>\<open>log.Printf\<close> are left out: they change nothing the functions return. A request is
  followed on its own: the store of conversations is passed in and returned, and what
  other requests do to it meanwhile is not modelled.
\<close>

text \<open>A value of type \<^verbatim>\<open>interface{}\<close> as the code meets it: JSON values and Go ints.\<close>

datatype any = VNil | VBool bool | VFloat64 real | VInt int | VString string
  | VSlice "any list" | VMap "(string \<Rightarrow> any option) option"

text \<open>A \<^verbatim>\<open>map[string]interface{}\<close> variable; \<open>None\<close> is the nil map.\<close>

type_synonym gomap = "(string \<rightharpoonup> any) option"

record AgentRequest =
  req_Query :: string
  req_ConversationID :: string
  req_MaxIterations :: int
  req_Context :: "(string, string) mapping"

record AgentStep =
  step_StepNumber :: int
  step_Type :: string
  step_Description :: string
  step_Action :: string
  step_Result :: string
  step_Success :: bool
  step_Duration :: real

record AgentResponse =
  resp_ConversationID :: string
  resp_Query :: string
  resp_Answer :: string
  resp_Confidence :: real
  resp_Iterations :: int
  resp_ToolsUsed :: "string list"
  resp_Sources :: "string list"
  resp_ProcessTime :: real
  resp_Steps :: "AgentStep list"
  resp_NeedMoreInfo :: bool
  resp_FollowUpQ :: string

record Action =
  act_Type :: string
  act_Description :: string
  act_Parameters :: gomap

record ExecutionPlan =
  plan_OriginalQuery :: string
  plan_RewrittenQueries :: "string list"
  plan_Actions :: "Action list"
  plan_Reasoning :: string

record Message =
  msg_Role :: string
  msg_Content :: string
  msg_Timestamp :: int

record Conversation =
  conv_ID :: string
  conv_Messages :: "Message list"
  conv_StartTime :: int

record Verification =
  IsComplete :: bool
  Confidence :: real
  MissingInfo :: string

text \<open>
  The answer of the text-completion client. A candidate's content is a pointer and may be
  nil; a part stands for the text that \<^verbatim>\<open>fmt.Sprintf("%v", parts[0])\<close> renders for it.
\<close>

record Content =
  Parts :: "string list"

record Candidate =
  cand_Content :: "Content option"

record GenerateContentResponse =
  Candidates :: "Candidate list"

text \<open>The runtime panic that \<^verbatim>\<open>executeActions\<close> can raise.\<close>

datatype panic = AssignmentToEntryInNilMap

section \<open>The world outside the service\<close>

text \<open>
  Everything the code obtains from outside itself is a field of the environment: the
  collaborators reached over the network and the clock act on a world \<open>'w\<close> that is passed
  along, and the functions of the Go standard library whose results the code only passes on
  are pure fields. A Go \<^verbatim>\<open>error\<close> is represented by its message.

  \<^item> \<open>GenerateContent model prompt\<close>: the text-completion call.
  \<^item> \<open>Post url contentType body\<close>: \<^verbatim>\<open>http.Post\<close>, giving the body of the answer.
  \<^item> \<open>Now\<close>: \<^verbatim>\<open>time.Now\<close>, in nanoseconds.
  \<^item> \<open>NewUUID\<close>: \<^verbatim>\<open>uuid.New().String()\<close>.
  \<^item> \<open>Unmarshal_ExecutionPlan text plan\<close>, \<open>Unmarshal_Verification text v\<close>:
    \<^verbatim>\<open>json.Unmarshal\<close> into the given struct; the struct as it is left, and the error if any.
  \<^item> \<open>Decode_map body\<close>: \<^verbatim>\<open>json.NewDecoder(body).Decode\<close> into a nil map variable. It can
    succeed and leave the map nil (the JSON value \<^verbatim>\<open>null\<close>).
  \<^item> \<open>Marshal\<close>: \<^verbatim>\<open>json.Marshal\<close>, whose error the code drops.
  \<^item> \<open>Sprint_context\<close>, \<open>Sprint_result\<close>, \<open>Sprintf_2f\<close>: what \<^verbatim>\<open>fmt\<close> prints for
    \<^verbatim>\<open>%v\<close> of a \<^verbatim>\<open>map[string]string\<close>, \<^verbatim>\<open>%v\<close> of a \<^verbatim>\<open>map[string]interface{}\<close> and
    \<^verbatim>\<open>%.2f\<close> of a \<^verbatim>\<open>float64\<close>.
\<close>

record 'w env =
  Getenv :: "string \<Rightarrow> string"
  GenerateContent :: "string \<Rightarrow> string \<Rightarrow> 'w \<Rightarrow> (string + GenerateContentResponse) \<times> 'w"
  Post :: "string \<Rightarrow> string \<Rightarrow> string \<Rightarrow> 'w \<Rightarrow> (string + string) \<times> 'w"
  Now :: "'w \<Rightarrow> int \<times> 'w"
  NewUUID :: "'w \<Rightarrow> string \<times> 'w"
  TrimSpace :: "string \<Rightarrow> string"
  Unmarshal_ExecutionPlan :: "string \<Rightarrow> ExecutionPlan \<Rightarrow> ExecutionPlan \<times> string option"
  Unmarshal_Verification :: "string \<Rightarrow> Verification \<Rightarrow> Verification \<times> string option"
  Decode_map :: "string \<Rightarrow> string + gomap"
  Marshal :: "any \<Rightarrow> string"
  Sprint_context :: "(string, string) mapping \<Rightarrow> string"
  Sprint_result :: "(string \<rightharpoonup> any) \<Rightarrow> string"
  Sprintf_2f :: "real \<Rightarrow> string"

section \<open>Helpers of the language and its library\<close>

definition TrimPrefix :: "string \<Rightarrow> string \<Rightarrow> string" where
  "TrimPrefix s p = (if take (length p) s = p then drop (length p) s else s)"

definition TrimSuffix :: "string \<Rightarrow> string \<Rightarrow> string" where
  "TrimSuffix s p =
     (if length p \<le> length s \<and> drop (length s - length p) s = p
      then take (length s - length p) s else s)"

text \<open>\<^verbatim>\<open>%d\<close> of a length, and \<^verbatim>\<open>%v\<close> of a bool.\<close>

fun Itoa :: "nat \<Rightarrow> string" where
  "Itoa n = (if n < 10 then [''0123456789'' ! n]
             else Itoa (n div 10) @ [''0123456789'' ! (n mod 10)])"

declare Itoa.simps [simp del]

definition Sprint_bool :: "bool \<Rightarrow> string" where
  "Sprint_bool b = (if b then ''true'' else ''false'')"

text \<open>Reading a map (nil maps read as empty) and the comma-ok type assertions.\<close>

definition index :: "gomap \<Rightarrow> string \<Rightarrow> any option" where
  "index m k = (case m of None \<Rightarrow> None | Some f \<Rightarrow> f k)"

definition assert_string :: "any option \<Rightarrow> string \<times> bool" where
  "assert_string x = (case x of Some (VString s) \<Rightarrow> (s, True) | _ \<Rightarrow> ([], False))"

definition assert_float64 :: "any option \<Rightarrow> real \<times> bool" where
  "assert_float64 x = (case x of Some (VFloat64 r) \<Rightarrow> (r, True) | _ \<Rightarrow> (0, False))"

text \<open>\<^verbatim>\<open>int(topK)\<close>: truncation towards zero (for values in the range of \<^verbatim>\<open>int\<close>).\<close>

definition float64_to_int :: "real \<Rightarrow> int" where
  "float64_to_int x = (if 0 \<le> x then \<lfloor>x\<rfloor> else \<lceil>x\<rceil>)"

text \<open>\<^verbatim>\<open>time.Since(start).Milliseconds()\<close> as a \<^verbatim>\<open>float64\<close>.\<close>

definition Milliseconds :: "int \<Rightarrow> int" where
  "Milliseconds d = sgn d * (\<bar>d\<bar> div 1000000)"

definition Since_ms :: "'w env \<Rightarrow> int \<Rightarrow> 'w \<Rightarrow> real \<times> 'w" where
  "Since_ms env start w = (case Now env w of (t, w') \<Rightarrow> (real_of_int (Milliseconds (t - start)), w'))"

definition getEnv :: "'w env \<Rightarrow> string \<Rightarrow> string \<Rightarrow> string" where
  "getEnv env key defaultValue = (let v = Getenv env key in if v \<noteq> [] then v else defaultValue)"

section \<open>Global settings\<close>

definition RAG_SERVICE_URL :: "'w env \<Rightarrow> string" where
  "RAG_SERVICE_URL env = getEnv env ''RAG_SERVICE_URL'' ''http://localhost:8084''"

definition MCP_GATEWAY_URL :: "'w env \<Rightarrow> string" where
  "MCP_GATEWAY_URL env = getEnv env ''MCP_GATEWAY_URL'' ''http://localhost:9100''"

definition MAX_ITERATIONS :: int where
  "MAX_ITERATIONS = 5"

definition CONFIDENCE_THRESHOLD :: real where
  "CONFIDENCE_THRESHOLD = 0.7"

section \<open>Step 1: analyze the query\<close>

definition analyze_prompt :: "'w env \<Rightarrow> string \<Rightarrow> (string, string) mapping \<Rightarrow> string" where
  \<open>analyze_prompt env query ctxMap =
     (let prompt = ''Analyze this user query and provide a brief analysis:\<newline>\<newline>Query: "'' @ query
            @ ''"\<newline>\<newline>Provide:\<newline>1. Query type (question, request, command)\<newline>''
            @ ''2. Domain (compliance, kyc, risk, general)\<newline>3. Intent (what user wants)\<newline>''
            @ ''4. Complexity (simple, medium, complex)\<newline>\<newline>Answer in 2-3 sentences.''
      in if \<not> Mapping.is_empty ctxMap
         then prompt @ ''\<newline>\<newline>Additional context: '' @ Sprint_context env ctxMap
         else prompt)\<close>

definition analyzeQuery :: "'w env \<Rightarrow> string \<Rightarrow> (string, string) mapping \<Rightarrow> 'w \<Rightarrow> string \<times> 'w" where
  "analyzeQuery env query ctxMap w =
     (let modelName = ''gemini-2.5-pro'';
          prompt = analyze_prompt env query ctxMap
      in case GenerateContent env modelName prompt w of
           (Inl err, w') \<Rightarrow> (''Unable to analyze query'', w')
         | (Inr resp, w') \<Rightarrow>
             (case Candidates resp of
                [] \<Rightarrow> (''Query analysis completed'', w')
              | c # _ \<Rightarrow>
                  (case cand_Content c of
                     None \<Rightarrow> (''Query analysis completed'', w')
                   | Some content \<Rightarrow>
                       (case Parts content of
                          [] \<Rightarrow> (''Query analysis completed'', w')
                        | p # _ \<Rightarrow> (p, w')))))"

section \<open>Step 2: create the execution plan\<close>

definition default_action :: "string \<Rightarrow> Action" where
  "default_action query =
     \<lparr>act_Type = ''search_rag'', act_Description = ''Search knowledge base'',
      act_Parameters = Some [''query'' \<mapsto> VString query,
                             ''collection'' \<mapsto> VString ''regulatory_docs'',
                             ''top_k'' \<mapsto> VInt 5]\<rparr>"

definition plan_prompt :: "string \<Rightarrow> string" where
  \<open>plan_prompt query =
     ''You are an AI agent planning how to answer a user query.\<newline>\<newline>Query: "'' @ query
     @ ''"\<newline>\<newline>Available actions:\<newline>''
     @ ''1. search_rag - Search knowledge base (collections: regulatory_docs, merchant_docs, kyc_docs)\<newline>''
     @ ''2. call_tool - Call MCP tools (tools: verify-docs, risk-score, web-search, data-extractor)\<newline>''
     @ ''3. synthesize - Combine information\<newline>\<newline>''
     @ ''Create a plan with 2-4 actions. For each action specify:\<newline>- type (one of above)\<newline>''
     @ ''- description (what this action does)\<newline>- parameters (what parameters to pass)\<newline>\<newline>''
     @ ''Respond ONLY in JSON format:\<newline>{\<newline>  "rewritten_queries": ["query1", "query2"],\<newline>''
     @ ''  "actions": [\<newline>    {"type": "search_rag", "description": "...", ''
     @ ''"parameters": {"query": "...", "collection": "..."}}\<newline>  ],\<newline>''
     @ ''  "reasoning": "Why this plan will work"\<newline>}''\<close>

text \<open>The cleaning of a model answer before it is decoded (the same in planning and in
  verification).\<close>

definition clean_json :: "'w env \<Rightarrow> string \<Rightarrow> string" where
  "clean_json env responseText =
     TrimSpace env (TrimSuffix (TrimPrefix (TrimPrefix responseText ''```json'') ''```'') ''```'')"

definition createExecutionPlan ::
  "'w env \<Rightarrow> string \<Rightarrow> (string, string) mapping \<Rightarrow> 'w \<Rightarrow> (string + ExecutionPlan) \<times> 'w" where
  "createExecutionPlan env query ctxMap w =
     (let modelName = ''gemini-2.5-pro'';
          prompt = plan_prompt query
      in case GenerateContent env modelName prompt w of
           (Inl err, w') \<Rightarrow> (Inl err, w')
         | (Inr resp, w') \<Rightarrow>
             (case Candidates resp of
                [] \<Rightarrow> (Inl ''no response from model'', w')
              | c # _ \<Rightarrow>
                  (case cand_Content c of
                     None \<Rightarrow> (Inl ''no response from model'', w')
                   | Some content \<Rightarrow>
                       (case Parts content of
                          [] \<Rightarrow> (Inl ''empty response'', w')
                        | p # _ \<Rightarrow>
                            (let responseText = clean_json env p;
                                 plan = \<lparr>plan_OriginalQuery = query, plan_RewrittenQueries = [],
                                         plan_Actions = [], plan_Reasoning = []\<rparr>
                             in case Unmarshal_ExecutionPlan env responseText plan of
                                  (plan', Some err) \<Rightarrow>
                                    (Inr (plan'\<lparr>plan_RewrittenQueries := [query],
                                                plan_Actions := [default_action query],
                                                plan_Reasoning := ''Default plan: search knowledge base''\<rparr>),
                                     w')
                                | (plan', None) \<Rightarrow> (Inr plan', w'))))))"

section \<open>Step 3: execute the actions\<close>

definition executeSearchRAG :: "'w env \<Rightarrow> gomap \<Rightarrow> 'w \<Rightarrow> (string + gomap) \<times> 'w" where
  "executeSearchRAG env params w =
     (let query = fst (assert_string (index params ''query''));
          collection = fst (assert_string (index params ''collection''));
          topK = fst (assert_float64 (index params ''top_k''));
          query = (if query = [] then ''default query'' else query);
          collection = (if collection = [] then ''regulatory_docs'' else collection);
          topK = (if topK = 0 then 5 else topK);
          requestBody = Marshal env (VMap (Some [''query'' \<mapsto> VString query,
                                                 ''collection'' \<mapsto> VString collection,
                                                 ''top_k'' \<mapsto> VInt (float64_to_int topK)]))
      in case Post env (RAG_SERVICE_URL env @ ''/retrieve'') ''application/json'' requestBody w of
           (Inl err, w') \<Rightarrow> (Inl err, w')
         | (Inr body, w') \<Rightarrow>
             (case Decode_map env body of
                Inl err \<Rightarrow> (Inl err, w')
              | Inr result \<Rightarrow> (Inr result, w')))"

definition executeCallTool :: "'w env \<Rightarrow> gomap \<Rightarrow> 'w \<Rightarrow> (string + gomap) \<times> 'w" where
  "executeCallTool env params w =
     (let toolName = fst (assert_string (index params ''tool''))
      in if toolName = [] then (Inl ''tool name required'', w)
         else
           (let requestBody = Marshal env (VMap (Some [''tool'' \<mapsto> VString toolName,
                                                       ''params'' \<mapsto> VMap params]))
            in case Post env (MCP_GATEWAY_URL env @ ''/tools/call'') ''application/json'' requestBody w of
                 (Inl err, w') \<Rightarrow> (Inl err, w')
               | (Inr body, w') \<Rightarrow>
                   (case Decode_map env body of
                      Inl err \<Rightarrow> (Inl err, w')
                    | Inr result \<Rightarrow> (Inr result, w'))))"

text \<open>
  The body of the loop of \<^verbatim>\<open>executeActions\<close> for one action: the switch on the action's
  type, which leaves \<open>result\<close> and \<open>err\<close>; the replacement of \<open>result\<close> by the error map
  when \<open>err\<close> is set; and the assignment \<^verbatim>\<open>result["action_type"] = action.Type\<close>, which
  panics when \<open>result\<close> is the nil map.
\<close>

definition execute_action ::
  "'w env \<Rightarrow> Action \<Rightarrow> AgentResponse \<Rightarrow> 'w
     \<Rightarrow> (panic + (string \<rightharpoonup> any) \<times> AgentResponse) \<times> 'w" where
  "execute_action env action response w =
     (case (if act_Type action = ''search_rag'' then
              (case executeSearchRAG env (act_Parameters action) w of
                 (Inl e, w') \<Rightarrow> (None, Some e, response, w')
               | (Inr result, w') \<Rightarrow>
                   (result, None,
                    response\<lparr>resp_Sources := resp_Sources response @ [''RAG Knowledge Base'']\<rparr>, w'))
            else if act_Type action = ''call_tool'' then
              (case executeCallTool env (act_Parameters action) w of
                 (Inl e, w') \<Rightarrow> (None, Some e, response, w')
               | (Inr result, w') \<Rightarrow>
                   (result, None,
                    (case assert_string (index (act_Parameters action) ''tool'') of
                       (toolName, ok) \<Rightarrow>
                         if ok then response\<lparr>resp_ToolsUsed := resp_ToolsUsed response @ [toolName]\<rparr>
                         else response),
                    w'))
            else if act_Type action = ''synthesize'' then
              (Some [''status'' \<mapsto> VString ''deferred''], None, response, w)
            else (None, Some (''unknown action type: '' @ act_Type action), response, w)) of
        (result, err, response', w') \<Rightarrow>
          (let result = (case err of
                           Some e \<Rightarrow> Some [''error'' \<mapsto> VString e, ''status'' \<mapsto> VString ''failed'']
                         | None \<Rightarrow> result)
           in case result of
                None \<Rightarrow> (Inl AssignmentToEntryInNilMap, w')
              | Some m \<Rightarrow> (Inr (m(''action_type'' \<mapsto> VString (act_Type action)), response'), w')))"

fun executeActions_from ::
  "'w env \<Rightarrow> Action list \<Rightarrow> (string \<rightharpoonup> any) list \<Rightarrow> AgentResponse \<Rightarrow> 'w
     \<Rightarrow> (panic + (string \<rightharpoonup> any) list \<times> AgentResponse) \<times> 'w" where
  "executeActions_from env [] results response w = (Inr (results, response), w)"
| "executeActions_from env (action # actions) results response w =
     (case execute_action env action response w of
        (Inl p, w') \<Rightarrow> (Inl p, w')
      | (Inr (result, response'), w') \<Rightarrow>
          executeActions_from env actions (results @ [result]) response' w')"

definition executeActions ::
  "'w env \<Rightarrow> Action list \<Rightarrow> AgentResponse \<Rightarrow> 'w
     \<Rightarrow> (panic + (string \<rightharpoonup> any) list \<times> AgentResponse) \<times> 'w" where
  "executeActions env actions response w = executeActions_from env actions [] response w"

section \<open>Step 4: synthesize the answer\<close>

definition synthesize_prompt :: "'w env \<Rightarrow> string \<Rightarrow> (string \<rightharpoonup> any) list \<Rightarrow> string" where
  \<open>synthesize_prompt env query results =
     (let contextStr = foldl (\<lambda>s (i, result). s @ Itoa (i + 1) @ ''. '' @ Sprint_result env result
                                  @ ''\<newline>\<newline>'')
                         ''Information gathered:\<newline>\<newline>'' (enumerate 0 results)
      in ''Based on the information below, answer this question:\<newline>\<newline>Question: "''
           @ query @ ''"\<newline>\<newline>'' @ contextStr
           @ ''\<newline>\<newline>Provide a clear, concise answer. If information is insufficient, say so.'')\<close>

definition synthesizeAnswer :: "'w env \<Rightarrow> string \<Rightarrow> (string \<rightharpoonup> any) list \<Rightarrow> 'w \<Rightarrow> string \<times> 'w" where
  "synthesizeAnswer env query results w =
     (let modelName = ''gemini-2.5-pro'';
          prompt = synthesize_prompt env query results
      in case GenerateContent env modelName prompt w of
           (Inl err, w') \<Rightarrow> (''Unable to synthesize answer from available information.'', w')
         | (Inr resp, w') \<Rightarrow>
             (case Candidates resp of
                [] \<Rightarrow> (''No answer could be generated.'', w')
              | c # _ \<Rightarrow>
                  (case cand_Content c of
                     None \<Rightarrow> (''No answer could be generated.'', w')
                   | Some content \<Rightarrow>
                       (case Parts content of
                          [] \<Rightarrow> (''No answer could be generated.'', w')
                        | p # _ \<Rightarrow> (p, w')))))"

section \<open>Step 5: verify the answer\<close>

definition verify_prompt :: "string \<Rightarrow> string \<Rightarrow> string" where
  \<open>verify_prompt query answer =
     ''Evaluate this answer:\<newline>\<newline>Question: "'' @ query @ ''"\<newline>Answer: "'' @ answer
     @ ''"\<newline>\<newline>Is the answer:\<newline>1. Complete (addresses the question fully)\<newline>''
     @ ''2. Accurate (based on the information)\<newline>3. Relevant (stays on topic)\<newline>\<newline>''
     @ ''Respond in JSON:\<newline>{\<newline>  "is_complete": true/false,\<newline>  "confidence": 0.0-1.0,\<newline>''
     @ ''  "missing_info": "what'' @ [CHR 0x27] @ ''s missing (if not complete)"\<newline>}''\<close>

definition verifyAnswer ::
  "'w env \<Rightarrow> string \<Rightarrow> string \<Rightarrow> (string \<rightharpoonup> any) list \<Rightarrow> 'w \<Rightarrow> Verification \<times> 'w" where
  "verifyAnswer env query answer results w =
     (let modelName = ''gemini-2.5-pro'';
          prompt = verify_prompt query answer
      in case GenerateContent env modelName prompt w of
           (Inl err, w') \<Rightarrow> (\<lparr>IsComplete = True, Confidence = 0.5, MissingInfo = []\<rparr>, w')
         | (Inr resp, w') \<Rightarrow>
             (case Candidates resp of
                [] \<Rightarrow> (\<lparr>IsComplete = True, Confidence = 0.7, MissingInfo = []\<rparr>, w')
              | c # _ \<Rightarrow>
                  (case cand_Content c of
                     None \<Rightarrow> (\<lparr>IsComplete = True, Confidence = 0.7, MissingInfo = []\<rparr>, w')
                   | Some content \<Rightarrow>
                       (case Parts content of
                          [] \<Rightarrow> (\<lparr>IsComplete = True, Confidence = 0.7, MissingInfo = []\<rparr>, w')
                        | p # _ \<Rightarrow>
                            (let responseText = clean_json env p;
                                 v = \<lparr>IsComplete = False, Confidence = 0, MissingInfo = []\<rparr>
                             in case Unmarshal_Verification env responseText v of
                                  (v', Some err) \<Rightarrow>
                                    (\<lparr>IsComplete = True, Confidence = 0.7, MissingInfo = []\<rparr>, w')
                                | (v', None) \<Rightarrow> (v', w'))))))"

section \<open>Helper functions\<close>

definition enhanceQueryForIteration :: "string \<Rightarrow> string \<Rightarrow> string" where
  "enhanceQueryForIteration originalQuery missingInfo =
     (if missingInfo = [] then originalQuery
      else originalQuery @ '' (specifically about: '' @ missingInfo @ '')'')"

definition storeConversation ::
  "'w env \<Rightarrow> (string \<rightharpoonup> Conversation) \<Rightarrow> string \<Rightarrow> string \<Rightarrow> string \<Rightarrow> 'w
     \<Rightarrow> (string \<rightharpoonup> Conversation) \<times> 'w" where
  "storeConversation env conversations conversationID query answer w =
     (case (case conversations conversationID of
              Some conv \<Rightarrow> (conv, conversations, w)
            | None \<Rightarrow>
                (case Now env w of
                   (t, w') \<Rightarrow>
                     (let conv = \<lparr>conv_ID = conversationID, conv_Messages = [], conv_StartTime = t\<rparr>
                      in (conv, conversations(conversationID \<mapsto> conv), w')))) of
        (conv, conversations', w1) \<Rightarrow>
          (case Now env w1 of
             (t1, w2) \<Rightarrow>
               (case Now env w2 of
                  (t2, w3) \<Rightarrow>
                    (conversations'(conversationID \<mapsto>
                       conv\<lparr>conv_Messages := conv_Messages conv
                          @ [\<lparr>msg_Role = ''user'', msg_Content = query, msg_Timestamp = t1\<rparr>,
                             \<lparr>msg_Role = ''assistant'', msg_Content = answer, msg_Timestamp = t2\<rparr>]\<rparr>),
                     w3))))"

section \<open>The agentic loop\<close>

text \<open>The variables of \<^verbatim>\<open>executeAgenticLoop\<close> that live across the iterations of its loop.\<close>

record loop_state =
  ls_req :: AgentRequest
  ls_response :: AgentResponse
  ls_finalAnswer :: string
  ls_confidence :: real

definition append_step ::
  "AgentResponse \<Rightarrow> string \<Rightarrow> string \<Rightarrow> string \<Rightarrow> bool \<Rightarrow> real \<Rightarrow> AgentResponse" where
  "append_step response ty description result success duration =
     response\<lparr>resp_Steps := resp_Steps response
        @ [\<lparr>step_StepNumber = int (length (resp_Steps response)) + 1, step_Type = ty,
            step_Description = description, step_Action = [], step_Result = result,
            step_Success = success, step_Duration = duration\<rparr>]\<rparr>"

text \<open>
  Steps 1 to 5 of one iteration. They end in the early return of the loop (plan creation
  failed), in a panic of \<^verbatim>\<open>executeActions\<close>, or with the verification of the answer.
  \<open>phases_from_plan\<close> is the part from step 2 on, entered with the response that holds
  the step record of the analysis.
\<close>

datatype phases = PlanFailed AgentResponse | Panicked panic | Verified Verification loop_state

definition phases_from_plan :: "'w env \<Rightarrow> loop_state \<Rightarrow> AgentResponse \<Rightarrow> 'w \<Rightarrow> phases \<times> 'w" where
  "phases_from_plan env ls response w =
     (let req = ls_req ls
      in case Now env w of (step2Start, w) \<Rightarrow>
        (case createExecutionPlan env (req_Query req) (req_Context req) w of
           (Inl err, w) \<Rightarrow>
             (case Since_ms env step2Start w of (d2, w) \<Rightarrow>
                (PlanFailed ((append_step response ''plan'' ''Create execution plan'' [] False d2)
                               \<lparr>resp_Answer := ''Failed to create plan: '' @ err\<rparr>), w))
         | (Inr plan, w) \<Rightarrow>
             (case Since_ms env step2Start w of (d2, w) \<Rightarrow>
              let response = append_step response ''plan'' ''Create execution plan''
                               (plan_Reasoning plan) True d2
              in case Now env w of (step3Start, w) \<Rightarrow>
                (case executeActions env (plan_Actions plan) response w of
                   (Inl p, w) \<Rightarrow> (Panicked p, w)
                 | (Inr (executionResults, response), w) \<Rightarrow>
                     (case Since_ms env step3Start w of (d3, w) \<Rightarrow>
                      let response = append_step response ''execute''
                                       (''Execute '' @ Itoa (length (plan_Actions plan)) @ '' actions'')
                                       (''Executed '' @ Itoa (length executionResults) @ '' actions'')
                                       True d3
                      in case Now env w of (step4Start, w) \<Rightarrow>
                         case synthesizeAnswer env (req_Query req) executionResults w of
                           (finalAnswer, w) \<Rightarrow>
                         case Since_ms env step4Start w of (d4, w) \<Rightarrow>
                         let response = append_step response ''synthesize'' ''Synthesize final answer''
                                          (''Generated answer ('' @ Itoa (length finalAnswer) @ '' chars)'')
                                          True d4
                         in case Now env w of (step5Start, w) \<Rightarrow>
                            case verifyAnswer env (req_Query req) finalAnswer executionResults w of
                              (verification, w) \<Rightarrow>
                            case Since_ms env step5Start w of (d5, w) \<Rightarrow>
                            let response = append_step response ''verify'' ''Verify answer quality''
                                             (''Confidence: '' @ Sprintf_2f env (Confidence verification)
                                              @ '', Complete: '' @ Sprint_bool (IsComplete verification))
                                             True d5
                            in (Verified verification
                                  (ls\<lparr>ls_response := response, ls_finalAnswer := finalAnswer,
                                      ls_confidence := Confidence verification\<rparr>), w))))))"

definition run_phases :: "'w env \<Rightarrow> loop_state \<Rightarrow> 'w \<Rightarrow> phases \<times> 'w" where
  "run_phases env ls w =
     (let req = ls_req ls; response = ls_response ls
      in case Now env w of (step1Start, w) \<Rightarrow>
         case analyzeQuery env (req_Query req) (req_Context req) w of (analysis, w) \<Rightarrow>
         case Since_ms env step1Start w of (d1, w) \<Rightarrow>
           phases_from_plan env ls
             (append_step response ''analyze'' ''Analyze user query and intent'' analysis True d1) w)"

text \<open>Step 6: decide whether the loop is done, gives up at the cap, or goes on.\<close>

datatype decision = Break loop_state | Continue loop_state

definition decide :: "int \<Rightarrow> Verification \<Rightarrow> loop_state \<Rightarrow> decision" where
  "decide iteration verification ls =
     (if IsComplete verification \<and> Confidence verification \<ge> CONFIDENCE_THRESHOLD then
        Break (ls\<lparr>ls_response := (ls_response ls)\<lparr>resp_NeedMoreInfo := False\<rparr>\<rparr>)
      else if iteration \<ge> req_MaxIterations (ls_req ls) then
        Break (ls\<lparr>ls_response := (ls_response ls)
                 \<lparr>resp_NeedMoreInfo := True,
                  resp_FollowUpQ := ''I need more information to answer completely. Can you provide more context about: ''
                     @ MissingInfo verification\<rparr>\<rparr>)
      else
        Continue (ls\<lparr>ls_req := (ls_req ls)
                    \<lparr>req_Query := enhanceQueryForIteration (req_Query (ls_req ls))
                                    (MissingInfo verification)\<rparr>\<rparr>))"

lemma run_phases_req:
  "run_phases env ls w = (Verified v ls', w') \<Longrightarrow> ls_req ls' = ls_req ls"
  by (auto simp: run_phases_def phases_from_plan_def Let_def split: prod.splits sum.splits)

lemma decide_Continue_req:
  "decide i v ls = Continue ls' \<Longrightarrow> req_MaxIterations (ls_req ls') = req_MaxIterations (ls_req ls)"
  by (auto simp: decide_def split: if_splits)

text \<open>
  The loop \<^verbatim>\<open>for iteration := 1; iteration <= req.MaxIterations; iteration++\<close>. It is
  left by the early return, by a panic, or by falling through to the code after the loop
  (loop condition false, or one of the two \<^verbatim>\<open>break\<close>s). The counter is only incremented
  below the cap, so it cannot overflow.
\<close>

datatype loop_exit = Return AgentResponse | Panic panic | Fallthrough loop_state

function for_loop :: "'w env \<Rightarrow> int \<Rightarrow> loop_state \<Rightarrow> 'w \<Rightarrow> loop_exit \<times> 'w" where
  "for_loop env iteration ls w =
     (if iteration \<le> req_MaxIterations (ls_req ls) then
        (case run_phases env ls w of
           (PlanFailed response, w') \<Rightarrow> (Return response, w')
         | (Panicked p, w') \<Rightarrow> (Panic p, w')
         | (Verified verification ls', w') \<Rightarrow>
             (case decide iteration verification ls' of
                Break ls2 \<Rightarrow> (Fallthrough ls2, w')
              | Continue ls2 \<Rightarrow> for_loop env (iteration + 1) ls2 w'))
      else (Fallthrough ls, w))"
  by pat_completeness auto

termination
proof (relation "measure (\<lambda>(env, iteration, ls, w). nat (req_MaxIterations (ls_req ls) + 1 - iteration))")
  show "wf (measure (\<lambda>(env :: 'w env, iteration, ls, w :: 'w).
              nat (req_MaxIterations (ls_req ls) + 1 - iteration)))"
    by simp
next
  fix env :: "'w env" and iteration ls and w :: 'w and x y verification ls' ls2
  assume le: "iteration \<le> req_MaxIterations (ls_req ls)"
    and xy: "(x, y) = run_phases env ls w"
    and x: "x = Verified verification ls'"
    and d: "decide iteration verification ls' = Continue ls2"
  from xy x have "ls_req ls' = ls_req ls"
    using run_phases_req [of env ls w verification ls' y] by simp
  with decide_Continue_req [OF d]
  have "req_MaxIterations (ls_req ls2) = req_MaxIterations (ls_req ls)" by simp
  with le show "((env, iteration + 1, ls2, y), env, iteration, ls, w)
      \<in> measure (\<lambda>(env, iteration, ls, w). nat (req_MaxIterations (ls_req ls) + 1 - iteration))"
    by simp
qed

declare for_loop.simps [simp del]

text \<open>The loop state with which \<^verbatim>\<open>executeAgenticLoop\<close> enters its loop.\<close>

definition initial_state :: "AgentRequest \<Rightarrow> loop_state" where
  "initial_state req =
     \<lparr>ls_req = req,
      ls_response = \<lparr>resp_ConversationID = req_ConversationID req, resp_Query = req_Query req,
                     resp_Answer = [], resp_Confidence = 0, resp_Iterations = 0,
                     resp_ToolsUsed = [], resp_Sources = [], resp_ProcessTime = 0,
                     resp_Steps = [], resp_NeedMoreInfo = False, resp_FollowUpQ = []\<rparr>,
      ls_finalAnswer = [], ls_confidence = 0\<rparr>"

definition executeAgenticLoop ::
  "'w env \<Rightarrow> AgentRequest \<Rightarrow> (string \<rightharpoonup> Conversation) \<Rightarrow> 'w
     \<Rightarrow> (panic + AgentResponse \<times> (string \<rightharpoonup> Conversation)) \<times> 'w" where
  "executeAgenticLoop env req conversations w =
     (case for_loop env 1 (initial_state req) w of
        (Return response, w') \<Rightarrow> (Inr (response, conversations), w')
      | (Panic p, w') \<Rightarrow> (Inl p, w')
      | (Fallthrough ls, w') \<Rightarrow>
          (let response = (ls_response ls)
                 \<lparr>resp_Answer := ls_finalAnswer ls, resp_Confidence := ls_confidence ls,
                  resp_Iterations := int (length (resp_Steps (ls_response ls))) div 5\<rparr>
           in case storeConversation env conversations (req_ConversationID (ls_req ls))
                     (req_Query (ls_req ls)) (ls_finalAnswer ls) w' of
                (conversations', w2) \<Rightarrow> (Inr (response, conversations'), w2)))"

section \<open>The query handler\<close>

text \<open>
  \<^verbatim>\<open>agentQueryHandler\<close> on a request whose method is POST and whose body has decoded into
  \<open>req\<close>: it answers 400 for an empty query, and otherwise 200 with the response of the
  loop. A panic of the loop leaves the request without an answer.
\<close>

datatype reply = BadRequest string | OK AgentResponse

definition agentQueryHandler ::
  "'w env \<Rightarrow> AgentRequest \<Rightarrow> (string \<rightharpoonup> Conversation) \<Rightarrow> 'w
     \<Rightarrow> (panic + reply \<times> (string \<rightharpoonup> Conversation)) \<times> 'w" where
  "agentQueryHandler env req conversations w =
     (case Now env w of (startTime, w) \<Rightarrow>
        if req_Query req = [] then (Inr (BadRequest ''Query cannot be empty'', conversations), w)
        else
          (let req = (if req_MaxIterations req = 0 then req\<lparr>req_MaxIterations := MAX_ITERATIONS\<rparr>
                      else req)
           in case (if req_ConversationID req = []
                    then (case NewUUID env w of (u, w) \<Rightarrow> (req\<lparr>req_ConversationID := u\<rparr>, w))
                    else (req, w)) of
                (req, w) \<Rightarrow>
                  (case executeAgenticLoop env req conversations w of
                     (Inl p, w) \<Rightarrow> (Inl p, w)
                   | (Inr (response, conversations'), w) \<Rightarrow>
                       (case Since_ms env startTime w of
                          (d, w) \<Rightarrow> (Inr (OK (response\<lparr>resp_ProcessTime := d\<rparr>), conversations'), w)))))"

section \<open>Iterations of a run\<close>

text \<open>
  \<open>loop_head env iteration ls w n\<close> is the state in which the loop, started in
  \<open>(iteration, ls, w)\<close>, begins its iteration number \<open>n + 1\<close>, when it gets that far: each of
  the \<open>n\<close> iterations before must have passed the loop condition, reached its
  verification and gone on.
\<close>

fun loop_head ::
  "'w env \<Rightarrow> int \<Rightarrow> loop_state \<Rightarrow> 'w \<Rightarrow> nat \<Rightarrow> (int \<times> loop_state \<times> 'w) option" where
  "loop_head env iteration ls w 0 = Some (iteration, ls, w)"
| "loop_head env iteration ls w (Suc n) =
     (case loop_head env iteration ls w n of
        None \<Rightarrow> None
      | Some (i, ls', w') \<Rightarrow>
          if i \<le> req_MaxIterations (ls_req ls') then
            (case run_phases env ls' w' of
               (Verified verification ls2, w2) \<Rightarrow>
                 (case decide i verification ls2 of
                    Continue ls3 \<Rightarrow> Some (i + 1, ls3, w2)
                  | Break _ \<Rightarrow> None)
             | _ \<Rightarrow> None)
          else None)"

section \<open>What one iteration changes\<close>

lemma execute_action_frame:
  "execute_action env a r w = (Inr (m, r'), w') \<Longrightarrow>
     resp_Steps r' = resp_Steps r \<and> resp_NeedMoreInfo r' = resp_NeedMoreInfo r
     \<and> resp_FollowUpQ r' = resp_FollowUpQ r \<and> resp_Confidence r' = resp_Confidence r"
  by (auto simp: execute_action_def Let_def split: if_splits prod.splits sum.splits option.splits)

lemma executeActions_from_frame:
  "executeActions_from env actions results r w = (Inr (results', r'), w') \<Longrightarrow>
     length results' = length results + length actions
     \<and> resp_Steps r' = resp_Steps r \<and> resp_NeedMoreInfo r' = resp_NeedMoreInfo r
     \<and> resp_FollowUpQ r' = resp_FollowUpQ r \<and> resp_Confidence r' = resp_Confidence r"
proof (induction actions arbitrary: results r w)
  case Nil
  then show ?case by simp
next
  case (Cons a actions)
  then show ?case
    by (auto split: prod.splits sum.splits dest!: execute_action_frame)
qed

lemma executeActions_frame:
  "executeActions env actions r w = (Inr (results', r'), w') \<Longrightarrow>
     length results' = length actions
     \<and> resp_Steps r' = resp_Steps r \<and> resp_NeedMoreInfo r' = resp_NeedMoreInfo r
     \<and> resp_FollowUpQ r' = resp_FollowUpQ r \<and> resp_Confidence r' = resp_Confidence r"
  using executeActions_from_frame [of env actions "[]" r w results' r' w']
  by (simp add: executeActions_def)

lemma run_phases_Verified:
  "run_phases env ls w = (Verified v ls', w') \<Longrightarrow>
     ls_req ls' = ls_req ls
     \<and> length (resp_Steps (ls_response ls')) = length (resp_Steps (ls_response ls)) + 5
     \<and> resp_NeedMoreInfo (ls_response ls') = resp_NeedMoreInfo (ls_response ls)
     \<and> resp_FollowUpQ (ls_response ls') = resp_FollowUpQ (ls_response ls)
     \<and> resp_Confidence (ls_response ls') = resp_Confidence (ls_response ls)
     \<and> ls_confidence ls' = Confidence v"
  by (auto simp: run_phases_def phases_from_plan_def Let_def append_step_def
        split: prod.splits sum.splits dest!: executeActions_frame)

lemma run_phases_PlanFailed:
  "run_phases env ls w = (PlanFailed r, w') \<Longrightarrow>
     length (resp_Steps r) = length (resp_Steps (ls_response ls)) + 2
     \<and> resp_NeedMoreInfo r = resp_NeedMoreInfo (ls_response ls)
     \<and> resp_FollowUpQ r = resp_FollowUpQ (ls_response ls)
     \<and> resp_Iterations r = resp_Iterations (ls_response ls)
     \<and> resp_Confidence r = resp_Confidence (ls_response ls)"
  by (auto simp: run_phases_def phases_from_plan_def Let_def append_step_def
        split: prod.splits sum.splits)

section \<open>The loop, iteration by iteration\<close>

lemma decide_Continue:
  "decide i v ls = Continue ls' \<Longrightarrow>
     ls' = ls\<lparr>ls_req := (ls_req ls)\<lparr>req_Query := enhanceQueryForIteration (req_Query (ls_req ls)) (MissingInfo v)\<rparr>\<rparr>
     \<and> \<not> (IsComplete v \<and> Confidence v \<ge> CONFIDENCE_THRESHOLD) \<and> i < req_MaxIterations (ls_req ls)"
  by (auto simp: decide_def split: if_splits)

lemma loop_head_Suc:
  "loop_head env i0 ls0 w0 (Suc n) = Some (i, ls, w) \<longleftrightarrow>
     (\<exists>j lsj wj v ls'. loop_head env i0 ls0 w0 n = Some (j, lsj, wj)
        \<and> j \<le> req_MaxIterations (ls_req lsj)
        \<and> run_phases env lsj wj = (Verified v ls', w)
        \<and> decide j v ls' = Continue ls \<and> i = j + 1)"
  by (auto split: option.splits prod.splits phases.splits decision.splits if_splits)

lemma loop_head_invariant:
  "loop_head env i0 ls0 w0 n = Some (i, ls, w) \<Longrightarrow>
     i = i0 + int n
     \<and> req_MaxIterations (ls_req ls) = req_MaxIterations (ls_req ls0)
     \<and> req_ConversationID (ls_req ls) = req_ConversationID (ls_req ls0)
     \<and> length (resp_Steps (ls_response ls)) = length (resp_Steps (ls_response ls0)) + 5 * n
     \<and> resp_NeedMoreInfo (ls_response ls) = resp_NeedMoreInfo (ls_response ls0)
     \<and> resp_FollowUpQ (ls_response ls) = resp_FollowUpQ (ls_response ls0)"
proof (induction n arbitrary: i ls w)
  case 0
  then show ?case by simp
next
  case (Suc n)
  from Suc.prems obtain j lsj wj v ls' where
    h: "loop_head env i0 ls0 w0 n = Some (j, lsj, wj)"
    and r: "run_phases env lsj wj = (Verified v ls', w)"
    and d: "decide j v ls' = Continue ls" and i: "i = j + 1"
    unfolding loop_head_Suc by blast
  note ih = Suc.IH [OF h]
  note rp = run_phases_Verified [OF r]
  note dc = decide_Continue [OF d]
  from dc have ls: "ls_response ls = ls_response ls'"
    "req_MaxIterations (ls_req ls) = req_MaxIterations (ls_req ls')"
    "req_ConversationID (ls_req ls) = req_ConversationID (ls_req ls')"
    by simp_all
  show ?case using ih rp ls i by simp
qed

lemma for_loop_loop_head:
  "loop_head env i0 ls0 w0 n = Some (i, ls, w) \<Longrightarrow> for_loop env i0 ls0 w0 = for_loop env i ls w"
proof (induction n arbitrary: i ls w)
  case 0
  then show ?case by simp
next
  case (Suc n)
  from Suc.prems obtain j lsj wj v ls' where
    h: "loop_head env i0 ls0 w0 n = Some (j, lsj, wj)"
    and le: "j \<le> req_MaxIterations (ls_req lsj)"
    and r: "run_phases env lsj wj = (Verified v ls', w)"
    and d: "decide j v ls' = Continue ls" and i: "i = j + 1"
    unfolding loop_head_Suc by blast
  have "for_loop env j lsj wj = for_loop env i ls w"
    using le r d i by (subst for_loop.simps) simp
  with Suc.IH [OF h] show ?case by simp
qed

lemma initial_state_simps:
  "ls_req (initial_state req) = req"
  "resp_Steps (ls_response (initial_state req)) = []"
  "resp_NeedMoreInfo (ls_response (initial_state req)) = False"
  "resp_FollowUpQ (ls_response (initial_state req)) = []"
  by (simp_all add: initial_state_def)

lemma loop_head_shift:
  "loop_head env i ls w (Suc n) =
     (if i \<le> req_MaxIterations (ls_req ls) then
        (case run_phases env ls w of
           (Verified v ls', w') \<Rightarrow>
             (case decide i v ls' of
                Continue ls2 \<Rightarrow> loop_head env (i + 1) ls2 w' n
              | Break _ \<Rightarrow> None)
         | _ \<Rightarrow> None)
      else None)"
proof (induction n)
  case 0
  show ?case
    by (simp split: prod.splits phases.splits decision.splits)
next
  case (Suc n)
  have "loop_head env i ls w (Suc (Suc n)) =
          (case loop_head env i ls w (Suc n) of
             None \<Rightarrow> None
           | Some (j, lsj, wj) \<Rightarrow>
               if j \<le> req_MaxIterations (ls_req lsj) then
                 (case run_phases env lsj wj of
                    (Verified v ls2, w2) \<Rightarrow>
                      (case decide j v ls2 of
                         Continue ls3 \<Rightarrow> Some (j + 1, ls3, w2)
                       | Break _ \<Rightarrow> None)
                  | _ \<Rightarrow> None)
               else None)"
    by (rule loop_head.simps(2))
  also note Suc.IH
  finally show ?case
    by (simp split: prod.splits phases.splits decision.splits)
qed

text \<open>How the loop is left: every exit happens in some iteration that the run reaches.\<close>

lemma for_loop_exit:
  "for_loop env i ls w = (ex, w_end) \<Longrightarrow>
     \<exists>n j lsj wj. loop_head env i ls w n = Some (j, lsj, wj)
       \<and> (if j \<le> req_MaxIterations (ls_req lsj) then
            (case run_phases env lsj wj of
               (PlanFailed r, w') \<Rightarrow> ex = Return r \<and> w_end = w'
             | (Panicked p, w') \<Rightarrow> ex = Panic p \<and> w_end = w'
             | (Verified v ls', w') \<Rightarrow>
                 (\<exists>ls2. decide j v ls' = Break ls2 \<and> ex = Fallthrough ls2 \<and> w_end = w'))
          else ex = Fallthrough lsj \<and> w_end = wj)"
proof (induction env i ls w rule: for_loop.induct)
  case (1 env iteration ls w)
  show ?case
  proof (cases "iteration \<le> req_MaxIterations (ls_req ls)")
    case False
    with "1.prems" have "ex = Fallthrough ls \<and> w_end = w"
      by (subst (asm) for_loop.simps) simp
    with False show ?thesis
      by (intro exI [of _ 0] exI [of _ iteration] exI [of _ ls] exI [of _ w]) simp
  next
    case True
    obtain ph w' where ph: "run_phases env ls w = (ph, w')" by (cases "run_phases env ls w")
    show ?thesis
    proof (cases "\<exists>v ls' ls2. ph = Verified v ls' \<and> decide iteration v ls' = Continue ls2")
      case False
      with "1.prems" True ph
      have "case (ph, w') of
               (PlanFailed r, w') \<Rightarrow> ex = Return r \<and> w_end = w'
             | (Panicked p, w') \<Rightarrow> ex = Panic p \<and> w_end = w'
             | (Verified v ls', w') \<Rightarrow>
                 (\<exists>ls2. decide iteration v ls' = Break ls2 \<and> ex = Fallthrough ls2 \<and> w_end = w')"
        by (subst (asm) for_loop.simps) (auto split: phases.splits decision.splits)
      with True ph show ?thesis
        by (intro exI [of _ 0] exI [of _ iteration] exI [of _ ls] exI [of _ w]) simp
    next
      case c: True
      then obtain v ls' ls2 where
        v: "ph = Verified v ls'" and d: "decide iteration v ls' = Continue ls2"
        by blast
      from "1.prems" True ph v d have "for_loop env (iteration + 1) ls2 w' = (ex, w_end)"
        by (subst (asm) for_loop.simps) simp
      from "1.IH" [OF True ph [symmetric] v d this]
      obtain n j lsj wj where
        h: "loop_head env (iteration + 1) ls2 w' n = Some (j, lsj, wj)"
        and e: "if j \<le> req_MaxIterations (ls_req lsj) then
            (case run_phases env lsj wj of
               (PlanFailed r, w') \<Rightarrow> ex = Return r \<and> w_end = w'
             | (Panicked p, w') \<Rightarrow> ex = Panic p \<and> w_end = w'
             | (Verified v ls', w') \<Rightarrow>
                 (\<exists>ls2. decide j v ls' = Break ls2 \<and> ex = Fallthrough ls2 \<and> w_end = w'))
          else ex = Fallthrough lsj \<and> w_end = wj"
        by blast
      have "loop_head env iteration ls w (Suc n) = Some (j, lsj, wj)"
        using h True ph v d by (subst loop_head_shift) simp
      with e show ?thesis by blast
    qed
  qed
qed

section \<open>Readings of an outcome\<close>

text \<open>
  The response with which a run returns and the store it leaves (none after a panic);
  the messages of a stored conversation, as pairs of role and content; the step records
  with which steps 1 to 5 end, when they end with a response; whether they end in the
  early return; and the query with which an iteration of a run starts.
\<close>

definition response_of :: "(panic + AgentResponse \<times> (string \<rightharpoonup> Conversation)) \<times> 'w \<Rightarrow> AgentResponse option" where
  "response_of res = (case fst res of Inl p \<Rightarrow> None | Inr (response, conversations) \<Rightarrow> Some response)"

definition store_of ::
  "(panic + 'a \<times> (string \<rightharpoonup> Conversation)) \<times> 'w \<Rightarrow> (string \<rightharpoonup> Conversation) option" where
  "store_of res = (case fst res of Inl p \<Rightarrow> None | Inr (response, conversations) \<Rightarrow> Some conversations)"

definition stored_messages ::
  "(string \<rightharpoonup> Conversation) option \<Rightarrow> string \<Rightarrow> (string \<times> string) list option" where
  "stored_messages store conversationID =
     (case store of
        None \<Rightarrow> None
      | Some conversations \<Rightarrow>
          (case conversations conversationID of
             None \<Rightarrow> None
           | Some conv \<Rightarrow> Some (map (\<lambda>m. (msg_Role m, msg_Content m)) (conv_Messages conv))))"


definition plan_failed :: "phases \<Rightarrow> bool" where
  "plan_failed ph = (case ph of PlanFailed response \<Rightarrow> True | _ \<Rightarrow> False)"


section \<open>Scripted worlds\<close>

text \<open>
  Concrete environments for evaluating the code. The world is the number of
  text-completion calls made so far: the model answers call number \<open>w\<close> with \<open>script w\<close>
  (in every iteration the calls are, in this order, those of the analysis, the plan, the
  synthesis and the verification), and every \<^verbatim>\<open>http.Post\<close> is answered by \<open>post\<close>. The
  clock stands still. The library functions are given on the texts and values that the
  scripts below produce, where they agree with Go's \<^verbatim>\<open>strings\<close>, \<^verbatim>\<open>encoding/json\<close> and
  \<^verbatim>\<open>fmt\<close>: the decoders read the JSON objects listed (the keys of a verification are the
  names of the fields of the struct, which has no tags), read \<^verbatim>\<open>null\<close> into a nil map,
  and report an error for prose. The scripted collaborators read neither their prompt nor
  the body of a request, so the renderings and encodings of maps are fixed texts.
\<close>

definition ascii_space :: "char \<Rightarrow> bool" where
  "ascii_space c = (c \<in> set [CHR 0x09, CHR 0x0A, CHR 0x0B, CHR 0x0C, CHR 0x0D, CHR 0x20])"

definition trim_ascii :: "string \<Rightarrow> string" where
  "trim_ascii s = rev (dropWhile ascii_space (rev (dropWhile ascii_space s)))"

definition test_Unmarshal_Verification :: "string \<Rightarrow> Verification \<Rightarrow> Verification \<times> string option" where
  \<open>test_Unmarshal_Verification text v =
     (if text = ''{"IsComplete": true, "Confidence": 0.9}''
      then (v\<lparr>IsComplete := True, Confidence := 0.9\<rparr>, None)
      else if text = ''{"IsComplete": false, "Confidence": 0.3, "MissingInfo": "budget limits"}''
      then (v\<lparr>IsComplete := False, Confidence := 0.3, MissingInfo := ''budget limits''\<rparr>, None)
      else (v, Some ''invalid character''))\<close>

definition test_Unmarshal_ExecutionPlan :: "string \<Rightarrow> ExecutionPlan \<Rightarrow> ExecutionPlan \<times> string option" where
  "test_Unmarshal_ExecutionPlan text plan =
     (if text = ''{}'' then (plan, None) else (plan, Some ''invalid character''))"

definition test_Decode_map :: "string \<Rightarrow> string + gomap" where
  \<open>test_Decode_map body =
     (if body = ''null'' then Inr None
      else if body = ''{"count": 0}'' then Inr (Some [''count'' \<mapsto> VFloat64 0])
      else Inl ''invalid character'')\<close>

definition test_Sprintf_2f :: "real \<Rightarrow> string" where
  "test_Sprintf_2f x =
     (if x = 0.9 then ''0.90'' else if x = 0.3 then ''0.30'' else if x = 0.5 then ''0.50''
      else if x = 0.7 then ''0.70'' else if x = 1.5 then ''1.50'' else ''0.00'')"

definition text_response :: "string \<Rightarrow> string + GenerateContentResponse" where
  "text_response t = Inr \<lparr>Candidates = [\<lparr>cand_Content = Some \<lparr>Parts = [t]\<rparr>\<rparr>]\<rparr>"

definition test_env ::
  "(nat \<Rightarrow> string + GenerateContentResponse) \<Rightarrow> (string + string) \<Rightarrow> nat env" where
  "test_env script post =
     \<lparr>Getenv = (\<lambda>key. []),
      GenerateContent = (\<lambda>model prompt w. (script w, Suc w)),
      Post = (\<lambda>url contentType body w. (post, w)),
      Now = (\<lambda>w. (0, w)),
      NewUUID = (\<lambda>w. (''6ba7b810-9dad-41d1-80b4-00c04fd430c8'', w)),
      TrimSpace = trim_ascii,
      Unmarshal_ExecutionPlan = test_Unmarshal_ExecutionPlan,
      Unmarshal_Verification = test_Unmarshal_Verification,
      Decode_map = test_Decode_map,
      Marshal = (\<lambda>v. ''{}''),
      Sprint_context = (\<lambda>m. ''map[]''),
      Sprint_result = (\<lambda>m. ''map[]''),
      Sprintf_2f = test_Sprintf_2f\<rparr>"

definition test_req :: "int \<Rightarrow> AgentRequest" where
  "test_req cap = \<lparr>req_Query = ''What are the KYC requirements?'', req_ConversationID = ''C1'',
                    req_MaxIterations = cap, req_Context = Mapping.empty\<rparr>"

text \<open>The retrieval service answers with an empty result.\<close>

definition retrieval_up :: "string + string" where
  \<open>retrieval_up = Inr ''{"count": 0}''\<close>

text \<open>The retrieval service answers with the JSON value \<^verbatim>\<open>null\<close>.\<close>

definition retrieval_null :: "string + string" where
  "retrieval_null = Inr ''null''"

text \<open>
  The model analyses, fails to give a plan in JSON, answers, and judges the answer
  complete with confidence 0.9; the retrieval service is up.
\<close>

definition script_confident :: "nat \<Rightarrow> string + GenerateContentResponse" where
  \<open>script_confident w =
     (if w mod 4 = 0 then text_response ''A question about KYC.''
      else if w mod 4 = 1 then text_response ''Search the knowledge base.''
      else if w mod 4 = 2 then text_response ''Identity and address proof.''
      else text_response ''{"IsComplete": true, "Confidence": 0.9}'')\<close>

text \<open>As before, but the model judges every answer incomplete, missing "budget limits".\<close>

definition script_doubtful :: "nat \<Rightarrow> string + GenerateContentResponse" where
  \<open>script_doubtful w =
     (if w mod 4 = 0 then text_response ''A question about KYC.''
      else if w mod 4 = 1 then text_response ''Search the knowledge base.''
      else if w mod 4 = 2 then text_response ''Identity and address proof.''
      else text_response ''{"IsComplete": false, "Confidence": 0.3, "MissingInfo": "budget limits"}'')\<close>

text \<open>The first answer is judged incomplete, the second complete.\<close>

definition script_second_try :: "nat \<Rightarrow> string + GenerateContentResponse" where
  "script_second_try w = (if w < 4 then script_doubtful w else script_confident w)"

text \<open>The text-completion service cannot be reached when the plan is asked for.\<close>

definition script_plan_down :: "nat \<Rightarrow> string + GenerateContentResponse" where
  "script_plan_down w = (if w mod 4 = 1 then Inl ''connection refused'' else script_doubtful w)"

text \<open>The planning call of the second iteration fails; the first iteration is unsuccessful.\<close>

definition script_plan_down_second :: "nat \<Rightarrow> string + GenerateContentResponse" where
  "script_plan_down_second w = (if w = 5 then Inl ''connection refused'' else script_doubtful w)"

text \<open>The verification call fails in transport; all else as in \<open>script_doubtful\<close>.\<close>

definition script_verifier_down :: "nat \<Rightarrow> string + GenerateContentResponse" where
  "script_verifier_down w = (if w mod 4 = 3 then Inl ''deadline exceeded'' else script_doubtful w)"

text \<open>The text-completion service cannot be reached when the analysis is asked for.\<close>

definition script_analysis_down :: "nat \<Rightarrow> string + GenerateContentResponse" where
  "script_analysis_down w = (if w mod 4 = 0 then Inl ''connection refused'' else script_confident w)"

text \<open>A model that reports a confidence of 1.5, and a decoder that takes it as it is.\<close>

definition script_overconfident :: "nat \<Rightarrow> string + GenerateContentResponse" where
  \<open>script_overconfident w =
     (if w mod 4 = 3 then text_response ''{"IsComplete": true, "Confidence": 1.5}''
      else script_confident w)\<close>


text \<open>A world whose decoder never leaves the result map nil.\<close>

definition strict_env :: "nat env" where
  \<open>strict_env =
     (test_env script_confident retrieval_up)
       \<lparr>Decode_map :=
          (\<lambda>body. if body = ''{"count": 0}'' then Inr (Some [''count'' \<mapsto> VFloat64 0])
                   else Inl ''invalid character'')\<rparr>\<close>

definition mixed_actions :: "Action list" where
  "mixed_actions =
     [\<lparr>act_Type = ''summarize'', act_Description = [], act_Parameters = None\<rparr>,
      \<lparr>act_Type = ''call_tool'', act_Description = [], act_Parameters = None\<rparr>,
      \<lparr>act_Type = ''search_rag'', act_Description = [], act_Parameters = None\<rparr>,
      \<lparr>act_Type = ''synthesize'', act_Description = [], act_Parameters = None\<rparr>]"

lemmas test_defs = test_env_def test_req_def text_response_def trim_ascii_def ascii_space_def
  test_Unmarshal_Verification_def test_Unmarshal_ExecutionPlan_def test_Decode_map_def
  test_Sprintf_2f_def

lemmas script_defs = script_confident_def script_doubtful_def script_second_try_def retrieval_up_def
  script_plan_down_def script_verifier_down_def script_overconfident_def
  script_analysis_down_def script_plan_down_second_def retrieval_null_def

lemmas code_defs = run_phases_def phases_from_plan_def analyzeQuery_def analyze_prompt_def
  synthesize_prompt_def createExecutionPlan_def verifyAnswer_def
  synthesizeAnswer_def executeActions_def execute_action_def executeSearchRAG_def
  executeCallTool_def clean_json_def TrimPrefix_def TrimSuffix_def append_step_def Since_ms_def
  Milliseconds_def default_action_def index_def assert_string_def assert_float64_def
  float64_to_int_def RAG_SERVICE_URL_def MCP_GATEWAY_URL_def getEnv_def initial_state_def
  Sprint_bool_def Let_def enumerate_eq_zip

lemmas loop_defs = decide_def CONFIDENCE_THRESHOLD_def enhanceQueryForIteration_def

lemmas run_defs = executeAgenticLoop_def for_loop.simps storeConversation_def response_of_def
  store_of_def plan_failed_def stored_messages_def

section \<open>The stop condition\<close>

text \<open>
  C1. If iteration \<open>k\<close> of a run (\<open>k\<close> at most the cap) produces a verification that is
  complete with a confidence of at least the threshold, the loop stops at iteration \<open>k\<close>:
  the run returns a response whose steps are those recorded up to the end of that
  iteration, \<open>5 * k\<close> of them, whose iteration count is \<open>k\<close>, and whose need-more-info flag
  is false. Iteration \<open>k = n + 1\<close> of the run is the one that starts in the state
  \<open>loop_head env 1 (initial_state req) w0 n\<close>.
\<close>

theorem loop_stops_when_verification_satisfies:
  assumes head: "loop_head env 1 (initial_state req) w0 n = Some (k, ls, w)"
    and cap: "k \<le> req_MaxIterations req"
    and phases: "run_phases env ls w = (Verified v ls', w')"
    and ok: "IsComplete v" "Confidence v \<ge> CONFIDENCE_THRESHOLD"
  shows "\<exists>r cs w_end. executeAgenticLoop env req conversations w0 = (Inr (r, cs), w_end)
           \<and> \<not> resp_NeedMoreInfo r
           \<and> k = int n + 1
           \<and> resp_Steps r = resp_Steps (ls_response ls')
           \<and> length (resp_Steps r) = 5 * (n + 1)
           \<and> resp_Iterations r = k"
proof -
  note inv = loop_head_invariant [OF head, unfolded initial_state_simps]
  note rp = run_phases_Verified [OF phases]
  let ?ls = "ls'\<lparr>ls_response := (ls_response ls')\<lparr>resp_NeedMoreInfo := False\<rparr>\<rparr>"
  have d: "decide k v ls' = Break ?ls"
    using ok by (simp add: decide_def)
  have "for_loop env k ls w = (Fallthrough ?ls, w')"
    using cap inv phases d by (subst for_loop.simps) simp
  then have fl: "for_loop env 1 (initial_state req) w0 = (Fallthrough ?ls, w')"
    using for_loop_loop_head [OF head] by simp
  have len: "length (resp_Steps (ls_response ls')) = 5 * (n + 1)"
    using inv rp by simp
  show ?thesis
    using fl len inv
    by (simp add: executeAgenticLoop_def Let_def split: prod.splits)
qed

text \<open>
  A run with cap 3 whose first verification is incomplete and whose second is complete
  with confidence 0.9: it stops at iteration 2.
\<close>

theorem loop_stops_when_verification_satisfies_witness:
  "\<exists>r cs w_end. executeAgenticLoop (test_env script_second_try retrieval_up) (test_req 3) Map.empty 0
                 = (Inr (r, cs), w_end)
     \<and> \<not> resp_NeedMoreInfo r \<and> length (resp_Steps r) = 10 \<and> resp_Iterations r = 2"
proof -
  let ?env = "test_env script_second_try retrieval_up"
  have "\<exists>ls w v ls' w'. loop_head ?env 1 (initial_state (test_req 3)) 0 1 = Some (2, ls, w)
          \<and> run_phases ?env ls w = (Verified v ls', w')
          \<and> IsComplete v \<and> Confidence v \<ge> CONFIDENCE_THRESHOLD"
    by (simp add: code_defs test_defs script_defs loop_defs Itoa.simps)
  then obtain ls w v ls' w' where
    head: "loop_head ?env 1 (initial_state (test_req 3)) 0 1 = Some (2, ls, w)"
    and phases: "run_phases ?env ls w = (Verified v ls', w')"
    and ok: "IsComplete v" "Confidence v \<ge> CONFIDENCE_THRESHOLD"
    by blast
  have cap: "2 \<le> req_MaxIterations (test_req 3)"
    by (simp add: test_req_def)
  from loop_stops_when_verification_satisfies [OF head cap phases ok, of Map.empty]
  show ?thesis by auto
qed

section \<open>Reaching the cap\<close>




section \<open>Query refinement between iterations\<close>




section \<open>The range of the confidence\<close>








section \<open>The fallback plan\<close>

text \<open>
  C5. Whenever the answer of the model to the planning prompt has a first part whose
  text, with the code-fence markers stripped and the white space trimmed, fails to decode
  as JSON, \<^verbatim>\<open>createExecutionPlan\<close> returns the default plan: its only action is a
  \<^verbatim>\<open>search_rag\<close> action on the collection \<^verbatim>\<open>regulatory_docs\<close> with the original query and
  \<^verbatim>\<open>top_k\<close> 5, its reasoning is exactly "Default plan: search knowledge base", and its
  only rewritten query is the original query.
\<close>

theorem createExecutionPlan_falls_back_to_default_plan:
  assumes gen: "GenerateContent env ''gemini-2.5-pro'' (plan_prompt query) w = (Inr resp, w')"
    and part: "Candidates resp = c # cs" "cand_Content c = Some content" "Parts content = p # ps"
    and bad: "snd (Unmarshal_ExecutionPlan env
                     (TrimSpace env (TrimSuffix (TrimPrefix (TrimPrefix p ''```json'') ''```'') ''```''))
                     \<lparr>plan_OriginalQuery = query, plan_RewrittenQueries = [], plan_Actions = [],
                      plan_Reasoning = []\<rparr>) = Some err"
  shows "\<exists>plan. createExecutionPlan env query ctxMap w = (Inr plan, w')
           \<and> plan_Actions plan =
               [\<lparr>act_Type = ''search_rag'', act_Description = ''Search knowledge base'',
                 act_Parameters = Some [''query'' \<mapsto> VString query,
                                        ''collection'' \<mapsto> VString ''regulatory_docs'',
                                        ''top_k'' \<mapsto> VInt 5]\<rparr>]
           \<and> plan_Reasoning plan = ''Default plan: search knowledge base''
           \<and> plan_RewrittenQueries plan = [query]"
  using gen part bad
  by (auto simp: createExecutionPlan_def clean_json_def default_action_def Let_def
        split: prod.splits option.splits)

text \<open>An answer of the model to the planning prompt that is plain prose.\<close>

theorem createExecutionPlan_falls_back_to_default_plan_witness:
  "\<exists>plan. createExecutionPlan (test_env script_confident retrieval_up) ''What are the KYC requirements?''
              Mapping.empty 1 = (Inr plan, 2)
     \<and> plan_Actions plan =
         [\<lparr>act_Type = ''search_rag'', act_Description = ''Search knowledge base'',
           act_Parameters = Some [''query'' \<mapsto> VString ''What are the KYC requirements?'',
                                  ''collection'' \<mapsto> VString ''regulatory_docs'',
                                  ''top_k'' \<mapsto> VInt 5]\<rparr>]
     \<and> plan_Reasoning plan = ''Default plan: search knowledge base''
     \<and> plan_RewrittenQueries plan = [''What are the KYC requirements?'']"
proof -
  let ?env = "test_env script_confident retrieval_up"
  let ?q = "''What are the KYC requirements?''"
  let ?resp = "\<lparr>Candidates = [\<lparr>cand_Content = Some \<lparr>Parts = [''Search the knowledge base.'']\<rparr>\<rparr>]\<rparr>"
  have gen: "GenerateContent ?env ''gemini-2.5-pro'' (plan_prompt ?q) 1 = (Inr ?resp, 2)"
    by (simp add: test_defs script_defs)
  have bad: "snd (Unmarshal_ExecutionPlan ?env
                    (TrimSpace ?env (TrimSuffix (TrimPrefix (TrimPrefix ''Search the knowledge base.''
                       ''```json'') ''```'') ''```''))
                    \<lparr>plan_OriginalQuery = ?q, plan_RewrittenQueries = [], plan_Actions = [],
                     plan_Reasoning = []\<rparr>) = Some ''invalid character''"
    by (simp add: test_defs TrimPrefix_def TrimSuffix_def)
  have c: "Candidates ?resp = \<lparr>cand_Content = Some \<lparr>Parts = [''Search the knowledge base.'']\<rparr>\<rparr> # []"
    and ct: "cand_Content \<lparr>cand_Content = Some \<lparr>Parts = [''Search the knowledge base.'']\<rparr>\<rparr>
               = Some \<lparr>Parts = [''Search the knowledge base.'']\<rparr>"
    and ps: "Parts \<lparr>Parts = [''Search the knowledge base.'']\<rparr> = ''Search the knowledge base.'' # []"
    by simp_all
  from createExecutionPlan_falls_back_to_default_plan [OF gen c ct ps bad, of Mapping.empty]
  show ?thesis by simp
qed

section \<open>The fallbacks of the verifier\<close>

text \<open>
  C9. \<^verbatim>\<open>verifyAnswer\<close> returns exactly the verification (complete, 0.5, no missing
  information) when the text-completion call fails, and exactly (complete, 0.7, no
  missing information) when the answer arrives and the cleaned text of its first part
  fails to decode; the two fallbacks differ.
\<close>

theorem verifyAnswer_fallbacks:
  "(GenerateContent env ''gemini-2.5-pro'' (verify_prompt query answer) w = (Inl err, w')
      \<longrightarrow> verifyAnswer env query answer results w
            = (\<lparr>IsComplete = True, Confidence = 0.5, MissingInfo = []\<rparr>, w'))
   \<and> (GenerateContent env ''gemini-2.5-pro'' (verify_prompt query answer) w = (Inr resp, w')
        \<and> Candidates resp = c # cs \<and> cand_Content c = Some content \<and> Parts content = p # ps
        \<and> snd (Unmarshal_Verification env
                  (TrimSpace env (TrimSuffix (TrimPrefix (TrimPrefix p ''```json'') ''```'') ''```''))
                  \<lparr>IsComplete = False, Confidence = 0, MissingInfo = []\<rparr>) = Some e
      \<longrightarrow> verifyAnswer env query answer results w
            = (\<lparr>IsComplete = True, Confidence = 0.7, MissingInfo = []\<rparr>, w'))
   \<and> \<lparr>IsComplete = True, Confidence = 0.5, MissingInfo = []\<rparr>
       \<noteq> \<lparr>IsComplete = True, Confidence = 0.7, MissingInfo = []\<rparr>"
  by (auto simp: verifyAnswer_def clean_json_def Let_def split: prod.splits option.splits)

text \<open>A verification call that fails, and one that is answered in prose.\<close>

theorem verifyAnswer_fallbacks_witness:
  "verifyAnswer (test_env script_verifier_down retrieval_up) ''What are the KYC requirements?''
       ''Identity and address proof.'' [] 3
     = (\<lparr>IsComplete = True, Confidence = 0.5, MissingInfo = []\<rparr>, 4)
   \<and> verifyAnswer (test_env script_confident retrieval_up) ''What are the KYC requirements?''
       ''Identity and address proof.'' [] 2
     = (\<lparr>IsComplete = True, Confidence = 0.7, MissingInfo = []\<rparr>, 3)"
proof -
  let ?q = "''What are the KYC requirements?''" and ?a = "''Identity and address proof.''"
  let ?down = "test_env script_verifier_down retrieval_up"
  let ?up = "test_env script_confident retrieval_up"
  let ?resp = "\<lparr>Candidates = [\<lparr>cand_Content = Some \<lparr>Parts = [''Identity and address proof.'']\<rparr>\<rparr>]\<rparr>"
  have g1: "GenerateContent ?down ''gemini-2.5-pro'' (verify_prompt ?q ?a) 3 = (Inl ''deadline exceeded'', 4)"
    by (simp add: test_defs script_defs)
  have g2: "GenerateContent ?up ''gemini-2.5-pro'' (verify_prompt ?q ?a) 2 = (Inr ?resp, 3)
        \<and> Candidates ?resp = \<lparr>cand_Content = Some \<lparr>Parts = [''Identity and address proof.'']\<rparr>\<rparr> # []
        \<and> cand_Content \<lparr>cand_Content = Some \<lparr>Parts = [''Identity and address proof.'']\<rparr>\<rparr>
            = Some \<lparr>Parts = [''Identity and address proof.'']\<rparr>
        \<and> Parts \<lparr>Parts = [''Identity and address proof.'']\<rparr> = ''Identity and address proof.'' # []
        \<and> snd (Unmarshal_Verification ?up
                  (TrimSpace ?up (TrimSuffix (TrimPrefix (TrimPrefix ''Identity and address proof.''
                      ''```json'') ''```'') ''```''))
                  \<lparr>IsComplete = False, Confidence = 0, MissingInfo = []\<rparr>) = Some ''invalid character''"
    by (simp add: test_defs script_defs TrimPrefix_def TrimSuffix_def)
  from verifyAnswer_fallbacks [of ?down ?q ?a 3 "''deadline exceeded''" 4 "[]"] g1
  have one: "verifyAnswer ?down ?q ?a [] 3 = (\<lparr>IsComplete = True, Confidence = 0.5, MissingInfo = []\<rparr>, 4)"
    by blast
  from verifyAnswer_fallbacks [of ?up ?q ?a 2 _ 3 "[]" ?resp] g2
  have two: "verifyAnswer ?up ?q ?a [] 2 = (\<lparr>IsComplete = True, Confidence = 0.7, MissingInfo = []\<rparr>, 3)"
    by blast
  from one two show ?thesis by simp
qed

section \<open>A failed analysis\<close>




section \<open>The iteration count\<close>


section \<open>The stored conversation\<close>


section \<open>A retrieval answer that is null\<close>

text \<open>
  C3 says that \<^verbatim>\<open>executeActions\<close> returns one result for every action. When the
  retrieval service answers a \<^verbatim>\<open>search_rag\<close> action with the JSON value \<^verbatim>\<open>null\<close>, the
  decoding succeeds and leaves the result map nil, and the assignment of \<^verbatim>\<open>action_type\<close>
  panics: no result is returned for any action, and the query handler does not answer.
\<close>

theorem executeActions_panics_on_null_answer:
  "executeActions (test_env script_confident retrieval_null)
     [\<lparr>act_Type = ''search_rag'', act_Description = ''Search knowledge base'',
       act_Parameters = Some [''query'' \<mapsto> VString ''What are the KYC requirements?'',
                              ''collection'' \<mapsto> VString ''regulatory_docs'',
                              ''top_k'' \<mapsto> VInt 5]\<rparr>,
      \<lparr>act_Type = ''synthesize'', act_Description = ''Combine'', act_Parameters = None\<rparr>]
     (ls_response (initial_state (test_req 1))) 0
   = (Inl AssignmentToEntryInNilMap, 0)
   \<and> fst (agentQueryHandler (test_env script_confident retrieval_null) (test_req 1) Map.empty 0)
     = Inl AssignmentToEntryInNilMap"
  by (simp add: agentQueryHandler_def MAX_ITERATIONS_def run_defs code_defs
        test_defs script_defs loop_defs Itoa.simps)

section \<open>The action executor, action by action\<close>

lemma execute_action_Inl:
  "execute_action env action response w = (Inl p, w') \<Longrightarrow>
     (act_Type action = ''search_rag'' \<or> act_Type action = ''call_tool'')
     \<and> (\<exists>body. Decode_map env body = Inr None)"
  by (auto simp: execute_action_def executeSearchRAG_def executeCallTool_def Let_def
        split: if_splits prod.splits sum.splits option.splits)

lemma execute_action_action_type:
  "execute_action env action response w = (Inr (m, response'), w') \<Longrightarrow>
     m ''action_type'' = Some (VString (act_Type action))"
  by (auto simp: execute_action_def Let_def split: if_splits prod.splits sum.splits option.splits)

lemma executeActions_from_results:
  "executeActions_from env actions results response w = (Inr (results', response'), w') \<Longrightarrow>
     \<exists>new. results' = results @ new \<and> length new = length actions
       \<and> (\<forall>i < length actions. (new ! i) ''action_type'' = Some (VString (act_Type (actions ! i))))"
proof (induction actions arbitrary: results response w)
  case Nil
  then show ?case by simp
next
  case (Cons a actions)
  from Cons.prems obtain m r1 w1 where
    a: "execute_action env a response w = (Inr (m, r1), w1)"
    and rest: "executeActions_from env actions (results @ [m]) r1 w1 = (Inr (results', response'), w')"
    by (auto split: prod.splits sum.splits)
  from Cons.IH [OF rest] obtain new where
    new: "results' = (results @ [m]) @ new" "length new = length actions"
      "\<forall>i < length actions. (new ! i) ''action_type'' = Some (VString (act_Type (actions ! i)))"
    by blast
  have "\<forall>i < length (a # actions). ((m # new) ! i) ''action_type'' = Some (VString (act_Type ((a # actions) ! i)))"
    using new(3) execute_action_action_type [OF a] by (auto simp: nth_Cons split: nat.splits)
  with new(1,2) show ?case
    by (intro exI [of _ "m # new"]) simp
qed

lemma executeActions_from_total:
  "\<forall>body. Decode_map env body \<noteq> Inr None \<Longrightarrow>
     \<exists>results' response' w'. executeActions_from env actions results response w
        = (Inr (results', response'), w')"
proof (induction actions arbitrary: results response w)
  case Nil
  then show ?case by simp
next
  case (Cons a actions)
  obtain x w1 where x: "execute_action env a response w = (x, w1)"
    by (cases "execute_action env a response w")
  show ?case
  proof (cases x)
    case (Inl p)
    with x execute_action_Inl [of env a response w p w1] Cons.prems show ?thesis by blast
  next
    case (Inr mr)
    then obtain m r1 where "x = Inr (m, r1)" by (cases mr) simp
    with x Cons.IH [OF Cons.prems, of "results @ [m]" r1 w1] show ?thesis by simp
  qed
qed

text \<open>
  When no answer of a collaborator decodes to a nil map, \<^verbatim>\<open>executeActions\<close> returns, for
  every list of actions, one result for each action, in the order of the actions: the
  result at position \<open>i\<close> carries the type of the action at position \<open>i\<close>.
\<close>

theorem executeActions_one_result_per_action:
  assumes "\<forall>body. Decode_map env body \<noteq> Inr None"
  shows "\<exists>results response' w'.
           executeActions env actions response w = (Inr (results, response'), w')
           \<and> length results = length actions
           \<and> (\<forall>i < length actions.
                 (results ! i) ''action_type'' = Some (VString (act_Type (actions ! i))))"
proof -
  from executeActions_from_total [OF assms, of actions "[]" response w]
  obtain results response' w' where
    r: "executeActions_from env actions [] response w = (Inr (results, response'), w')"
    by blast
  from executeActions_from_results [OF r] r show ?thesis
    by (auto simp: executeActions_def)
qed

text \<open>Four actions, of which the first is of an unknown type and the second lacks its tool.\<close>

theorem executeActions_one_result_per_action_witness:
  "\<exists>results response' w'.
     executeActions strict_env mixed_actions (ls_response (initial_state (test_req 1))) 0
       = (Inr (results, response'), w')
     \<and> length results = 4
     \<and> (results ! 0) ''action_type'' = Some (VString ''summarize'')
     \<and> (results ! 3) ''action_type'' = Some (VString ''synthesize'')"
proof -
  have dec: "\<forall>body. Decode_map strict_env body \<noteq> Inr None"
    by (simp add: strict_env_def test_env_def)
  from executeActions_one_result_per_action
         [OF dec, of mixed_actions "ls_response (initial_state (test_req 1))" 0]
  show ?thesis
    by (auto simp: mixed_actions_def)
qed

text \<open>
  A \<^verbatim>\<open>call_tool\<close> action without a tool name (absent, empty or not a string) gives the
  failed result with the message "tool name required"; nothing is raised and the response
  and the world are left as they are.
\<close>

theorem call_tool_without_tool_name_fails_in_band:
  assumes "act_Type action = ''call_tool''"
    and "fst (assert_string (index (act_Parameters action) ''tool'')) = []"
  shows "execute_action env action response w
         = (Inr ([''error'' \<mapsto> VString ''tool name required'', ''status'' \<mapsto> VString ''failed'',
                  ''action_type'' \<mapsto> VString ''call_tool''], response), w)"
  using assms by (simp add: execute_action_def executeCallTool_def Let_def)

theorem call_tool_without_tool_name_fails_in_band_witness:
  "execute_action strict_env \<lparr>act_Type = ''call_tool'', act_Description = [], act_Parameters = None\<rparr>
     (ls_response (initial_state (test_req 1))) 0
   = (Inr ([''error'' \<mapsto> VString ''tool name required'', ''status'' \<mapsto> VString ''failed'',
            ''action_type'' \<mapsto> VString ''call_tool''], ls_response (initial_state (test_req 1))), 0)"
  using call_tool_without_tool_name_fails_in_band
          [of "\<lparr>act_Type = ''call_tool'', act_Description = [], act_Parameters = None\<rparr>"
              strict_env "ls_response (initial_state (test_req 1))" 0]
  by (simp add: index_def assert_string_def)

text \<open>
  An action of any other type than the three known ones gives the failed result with
  the message "unknown action type: " followed by the type.
\<close>

theorem unknown_action_type_fails_in_band:
  assumes "act_Type action \<noteq> ''search_rag''" "act_Type action \<noteq> ''call_tool''"
    "act_Type action \<noteq> ''synthesize''"
  shows "execute_action env action response w
         = (Inr ([''error'' \<mapsto> VString (''unknown action type: '' @ act_Type action),
                  ''status'' \<mapsto> VString ''failed'',
                  ''action_type'' \<mapsto> VString (act_Type action)], response), w)"
  using assms by (simp add: execute_action_def Let_def)

theorem unknown_action_type_fails_in_band_witness:
  "execute_action strict_env \<lparr>act_Type = ''summarize'', act_Description = [], act_Parameters = None\<rparr>
     (ls_response (initial_state (test_req 1))) 0
   = (Inr ([''error'' \<mapsto> VString ''unknown action type: summarize'', ''status'' \<mapsto> VString ''failed'',
            ''action_type'' \<mapsto> VString ''summarize''], ls_response (initial_state (test_req 1))), 0)"
  using unknown_action_type_fails_in_band
          [of "\<lparr>act_Type = ''summarize'', act_Description = [], act_Parameters = None\<rparr>"
              strict_env "ls_response (initial_state (test_req 1))" 0]
  by simp

section \<open>Bounds of a run\<close>

lemma executeActions_from_iterations:
  "executeActions_from env actions results r w = (Inr (results', r'), w') \<Longrightarrow>
     resp_Iterations r' = resp_Iterations r"
proof (induction actions arbitrary: results r w)
  case Nil
  then show ?case by simp
next
  case (Cons a actions)
  from Cons.prems obtain m r1 w1 where
    a: "execute_action env a r w = (Inr (m, r1), w1)"
    and rest: "executeActions_from env actions (results @ [m]) r1 w1 = (Inr (results', r'), w')"
    by (auto split: prod.splits sum.splits)
  from a have "resp_Iterations r1 = resp_Iterations r"
    by (auto simp: execute_action_def Let_def split: if_splits prod.splits sum.splits option.splits)
  with Cons.IH [OF rest] show ?case by simp
qed

lemma loop_head_below_cap:
  "loop_head env i0 ls0 w0 (Suc n) = Some (i, ls, w) \<Longrightarrow> i \<le> req_MaxIterations (ls_req ls)"
proof -
  assume h: "loop_head env i0 ls0 w0 (Suc n) = Some (i, ls, w)"
  then obtain j lsj wj v ls' where
    r: "run_phases env lsj wj = (Verified v ls', w)"
    and d: "decide j v ls' = Continue ls" and i: "i = j + 1"
    unfolding loop_head_Suc by blast
  from decide_Continue [OF d] i show ?thesis by simp
qed

lemma loop_head_iterations:
  "loop_head env i0 ls0 w0 n = Some (i, ls, w) \<Longrightarrow>
     resp_Iterations (ls_response ls) = resp_Iterations (ls_response ls0)"
proof (induction n arbitrary: i ls w)
  case 0
  then show ?case by simp
next
  case (Suc n)
  from Suc.prems obtain j lsj wj v ls' where
    h: "loop_head env i0 ls0 w0 n = Some (j, lsj, wj)"
    and r: "run_phases env lsj wj = (Verified v ls', w)"
    and d: "decide j v ls' = Continue ls"
    unfolding loop_head_Suc by blast
  from r have "resp_Iterations (ls_response ls') = resp_Iterations (ls_response lsj)"
    by (auto simp: run_phases_def phases_from_plan_def Let_def append_step_def
          executeActions_def split: prod.splits sum.splits dest!: executeActions_from_iterations)
  with decide_Continue [OF d] Suc.IH [OF h] show ?case by simp
qed

lemma decide_Break:
  "decide i v ls = Break ls' \<Longrightarrow>
     ls_req ls' = ls_req ls \<and> resp_Steps (ls_response ls') = resp_Steps (ls_response ls)
     \<and> ls_finalAnswer ls' = ls_finalAnswer ls"
  by (auto simp: decide_def split: if_splits)

text \<open>
  Every response that a run returns has at most five step records for each iteration that
  the cap allows, and an iteration count between 0 and the cap.
\<close>

theorem run_stays_within_the_cap:
  assumes "response_of (executeAgenticLoop env req conversations w) = Some r"
  shows "int (length (resp_Steps r)) \<le> 5 * max 0 (req_MaxIterations req)
         \<and> 0 \<le> resp_Iterations r \<and> resp_Iterations r \<le> max 0 (req_MaxIterations req)"
proof -
  obtain ex w_end where fl: "for_loop env 1 (initial_state req) w = (ex, w_end)"
    by (cases "for_loop env 1 (initial_state req) w")
  from for_loop_exit [OF fl] obtain n j lsj wj where
    h: "loop_head env 1 (initial_state req) w n = Some (j, lsj, wj)"
    and e: "if j \<le> req_MaxIterations (ls_req lsj) then
            (case run_phases env lsj wj of
               (PlanFailed r, w') \<Rightarrow> ex = Return r \<and> w_end = w'
             | (Panicked p, w') \<Rightarrow> ex = Panic p \<and> w_end = w'
             | (Verified v ls', w') \<Rightarrow>
                 (\<exists>ls2. decide j v ls' = Break ls2 \<and> ex = Fallthrough ls2 \<and> w_end = w'))
          else ex = Fallthrough lsj \<and> w_end = wj"
    by blast
  note inv = loop_head_invariant [OF h, unfolded initial_state_simps]
  have it0: "resp_Iterations (ls_response lsj) = resp_Iterations (ls_response lsj)" by simp
  show ?thesis
  proof (cases "j \<le> req_MaxIterations (ls_req lsj)")
    case False
    have "n = 0"
    proof (cases n)
      case (Suc m)
      with h loop_head_below_cap [of env 1 "initial_state req" w m j lsj wj] False
      show ?thesis by simp
    qed simp
    with False e inv fl assms show ?thesis
      by (auto simp: response_of_def executeAgenticLoop_def Let_def split: prod.splits)
  next
    case True
    obtain ph w' where ph: "run_phases env lsj wj = (ph, w')" by (cases "run_phases env lsj wj")
    show ?thesis
    proof (cases ph)
      case (PlanFailed r')
      have "resp_Iterations (ls_response lsj) = 0"
        using loop_head_iterations [OF h] by (simp add: initial_state_def)
      with PlanFailed ph e True inv fl assms run_phases_PlanFailed [of env lsj wj r' w']
      show ?thesis
        by (auto simp: response_of_def executeAgenticLoop_def Let_def split: prod.splits)
    next
      case (Panicked p)
      with ph e True fl assms show ?thesis
        by (auto simp: response_of_def executeAgenticLoop_def Let_def split: prod.splits)
    next
      case (Verified v ls')
      with ph e True obtain ls2 where
        d: "decide j v ls' = Break ls2" and ex: "ex = Fallthrough ls2"
        by auto
      from run_phases_Verified [OF ph [unfolded Verified]] decide_Break [OF d] inv True ex fl assms
      show ?thesis
        by (auto simp: response_of_def executeAgenticLoop_def Let_def split: prod.splits)
    qed
  qed
qed

text \<open>Cap 2 and two unsuccessful iterations: ten step records, iteration count 2.\<close>

theorem run_stays_within_the_cap_witness:
  "\<exists>r. response_of (executeAgenticLoop (test_env script_doubtful retrieval_up) (test_req 2) Map.empty 0)
          = Some r
     \<and> length (resp_Steps r) = 10 \<and> resp_Iterations r = 2
     \<and> int (length (resp_Steps r)) \<le> 5 * max 0 (req_MaxIterations (test_req 2))
     \<and> resp_Iterations r \<le> max 0 (req_MaxIterations (test_req 2))"
proof -
  have "\<exists>r. response_of (executeAgenticLoop (test_env script_doubtful retrieval_up) (test_req 2) Map.empty 0)
          = Some r \<and> length (resp_Steps r) = 10 \<and> resp_Iterations r = 2"
    by (simp add: run_defs code_defs test_defs script_defs loop_defs Itoa.simps)
  then obtain r where
    r: "response_of (executeAgenticLoop (test_env script_doubtful retrieval_up) (test_req 2) Map.empty 0)
          = Some r"
    and v: "length (resp_Steps r) = 10" "resp_Iterations r = 2"
    by blast
  from run_stays_within_the_cap [OF r] r v show ?thesis by blast
qed

section \<open>The store after the loop\<close>

lemma storeConversation_appends:
  "storeConversation env conversations conversationID query answer w = (conversations', w') \<Longrightarrow>
     \<exists>conv t1 t2. conversations' conversationID = Some conv
       \<and> conv_Messages conv =
            (case conversations conversationID of None \<Rightarrow> [] | Some old \<Rightarrow> conv_Messages old)
            @ [\<lparr>msg_Role = ''user'', msg_Content = query, msg_Timestamp = t1\<rparr>,
               \<lparr>msg_Role = ''assistant'', msg_Content = answer, msg_Timestamp = t2\<rparr>]
       \<and> (\<forall>other. other \<noteq> conversationID \<longrightarrow> conversations' other = conversations other)"
  by (auto simp: storeConversation_def Let_def split: option.splits prod.splits)

text \<open>
  When the loop is left at its end or by a \<^verbatim>\<open>break\<close>, the run appends two messages to the
  conversation of the request (created when the store has none): a user message with the
  query as the loop has left it, and an assistant message with the answer of the
  response; the other conversations stay as they are.
\<close>

theorem loop_exit_appends_query_and_answer:
  assumes "for_loop env 1 (initial_state req) w = (Fallthrough ls, w1)"
  shows "\<exists>r conversations' w2 conv t1 t2.
           executeAgenticLoop env req conversations w = (Inr (r, conversations'), w2)
           \<and> conversations' (req_ConversationID req) = Some conv
           \<and> conv_Messages conv =
                (case conversations (req_ConversationID req) of
                   None \<Rightarrow> [] | Some old \<Rightarrow> conv_Messages old)
                @ [\<lparr>msg_Role = ''user'', msg_Content = req_Query (ls_req ls), msg_Timestamp = t1\<rparr>,
                   \<lparr>msg_Role = ''assistant'', msg_Content = resp_Answer r, msg_Timestamp = t2\<rparr>]
           \<and> (\<forall>other. other \<noteq> req_ConversationID req
                  \<longrightarrow> conversations' other = conversations other)"
proof -
  from for_loop_exit [OF assms] obtain n j lsj wj where
    h: "loop_head env 1 (initial_state req) w n = Some (j, lsj, wj)"
    and e: "if j \<le> req_MaxIterations (ls_req lsj) then
            (case run_phases env lsj wj of
               (PlanFailed r, w') \<Rightarrow> Fallthrough ls = Return r \<and> w1 = w'
             | (Panicked p, w') \<Rightarrow> Fallthrough ls = Panic p \<and> w1 = w'
             | (Verified v ls', w') \<Rightarrow>
                 (\<exists>ls2. decide j v ls' = Break ls2 \<and> Fallthrough ls = Fallthrough ls2 \<and> w1 = w'))
          else Fallthrough ls = Fallthrough lsj \<and> w1 = wj"
    by blast
  note inv = loop_head_invariant [OF h, unfolded initial_state_simps]
  have cid: "req_ConversationID (ls_req ls) = req_ConversationID req"
  proof (cases "j \<le> req_MaxIterations (ls_req lsj)")
    case False
    with e inv show ?thesis by simp
  next
    case True
    with e obtain v ls' w' where
      r: "run_phases env lsj wj = (Verified v ls', w')" and d: "decide j v ls' = Break ls"
      by (auto split: prod.splits phases.splits)
    from run_phases_Verified [OF r] decide_Break [OF d] inv show ?thesis by simp
  qed
  obtain conversations' w2 where
    st: "storeConversation env conversations (req_ConversationID (ls_req ls)) (req_Query (ls_req ls))
           (ls_finalAnswer ls) w1 = (conversations', w2)"
    by (cases "storeConversation env conversations (req_ConversationID (ls_req ls))
                 (req_Query (ls_req ls)) (ls_finalAnswer ls) w1")
  from storeConversation_appends [OF st] cid assms st show ?thesis
    by (simp add: executeAgenticLoop_def Let_def)
qed

text \<open>A run of one iteration: the stored user message is the submitted query.\<close>

theorem loop_exit_appends_query_and_answer_witness:
  "stored_messages
     (store_of (executeAgenticLoop (test_env script_confident retrieval_up) (test_req 1) Map.empty 0)) ''C1''
   = Some [(''user'', ''What are the KYC requirements?''), (''assistant'', ''Identity and address proof.'')]"
proof -
  let ?env = "test_env script_confident retrieval_up"
  have "\<exists>ls w1. for_loop ?env 1 (initial_state (test_req 1)) 0 = (Fallthrough ls, w1)
          \<and> req_Query (ls_req ls) = ''What are the KYC requirements?''"
    by (simp add: for_loop.simps code_defs test_defs script_defs loop_defs Itoa.simps)
  then obtain ls w1 where
    fl: "for_loop ?env 1 (initial_state (test_req 1)) 0 = (Fallthrough ls, w1)"
    and q: "req_Query (ls_req ls) = ''What are the KYC requirements?''"
    by blast
  have a: "\<exists>r. response_of (executeAgenticLoop ?env (test_req 1) Map.empty 0) = Some r
             \<and> resp_Answer r = ''Identity and address proof.''"
    by (simp add: run_defs code_defs test_defs script_defs loop_defs Itoa.simps)
  from loop_exit_appends_query_and_answer [OF fl, of Map.empty] q a
  show ?thesis
    by (auto simp: stored_messages_def store_of_def response_of_def test_req_def)
qed

end
